theory Spec2Isabelle
  imports Main "HOL-Library.Word"
begin

section \<open>Strings, dates and the chat message model\<close>

text \<open>
  A JavaScript string is a sequence of UTF-16 code units. Literals of the source are
  ASCII and are written through \<open>js\<close>. A \<open>Date\<close> is its number of milliseconds.
\<close>

type_synonym jsstring = "16 word list"

definition js :: "string \<Rightarrow> jsstring" where
  "js s = map of_char s"

text \<open>
  \<open>String.prototype.trim\<close> removes the code units of ECMAScript's WhiteSpace and
  LineTerminator productions from both ends.
\<close>

definition isWhiteSpace :: "16 word \<Rightarrow> bool" where
  "isWhiteSpace c \<longleftrightarrow>
     c \<in> {0x09, 0x0A, 0x0B, 0x0C, 0x0D, 0x20, 0xA0, 0x1680,
          0x2028, 0x2029, 0x202F, 0x205F, 0x3000, 0xFEFF}
     \<or> (0x2000 \<le> c \<and> c \<le> 0x200A)"

definition trim :: "jsstring \<Rightarrow> jsstring" where
  "trim s = rev (dropWhile isWhiteSpace (rev (dropWhile isWhiteSpace s)))"

text \<open>\<open>models/chat.ts\<close>: the interface \<open>ChatMessage\<close>. The optional fields are options.\<close>

datatype message_type = User | Assistant

datatype message_status = Sending | Sent | ErrorStatus | Temporary

record ChatMessage =
  id_msg :: "jsstring option"
  userId :: jsstring
  content :: jsstring
  sentAt :: int
  type :: message_type
  status :: "message_status option"

section \<open>The history converters of the two generation services\<close>

text \<open>\<open>xs.slice(-n)\<close>: the last \<open>n\<close> elements, all of them when there are fewer.\<close>

definition slice_last :: "nat \<Rightarrow> 'a list \<Rightarrow> 'a list" where
  "slice_last n xs = drop (length xs - n) xs"

datatype openai_role = RoleSystem | RoleUser | RoleAssistant

record MessageOpenAI =
  role_openai :: openai_role
  content_openai :: jsstring

datatype gemini_role = GeminiUser | GeminiModel

record PartGemini =
  text_part :: jsstring

record ContentGemini =
  role_gemini :: gemini_role
  parts :: "PartGemini list"

text \<open>The arrow function mapped over the messages in \<open>convertHistoryToOpenAI\<close>.\<close>

definition toOpenAI :: "ChatMessage \<Rightarrow> MessageOpenAI" where
  "toOpenAI msg =
     \<lparr>role_openai = (if type msg = User then RoleUser else RoleAssistant),
      content_openai = content msg\<rparr>"

text \<open>\<open>OpenAIService.convertHistoryToOpenAI\<close>.\<close>

definition convertHistoryToOpenAI :: "ChatMessage list \<Rightarrow> MessageOpenAI list" where
  "convertHistoryToOpenAI messages =
     (let convertedHistory = map toOpenAI messages in
      if length convertedHistory > 8 then
        (let lastMessages = slice_last 6 convertedHistory in
         if length lastMessages > 0 \<and> role_openai (lastMessages ! 0) = RoleAssistant
         then drop 1 lastMessages
         else lastMessages)
      else convertedHistory)"

text \<open>The arrow function mapped over the messages in \<open>convertHistoryToGemini\<close>.\<close>

definition toGemini :: "ChatMessage \<Rightarrow> ContentGemini" where
  "toGemini msg =
     \<lparr>role_gemini = (if type msg = User then GeminiUser else GeminiModel),
      parts = [\<lparr>text_part = content msg\<rparr>]\<rparr>"

text \<open>\<open>GeminiService.convertHistoryToGemini\<close>.\<close>

definition convertHistoryToGemini :: "ChatMessage list \<Rightarrow> ContentGemini list" where
  "convertHistoryToGemini messages =
     (let convertedHistory = map toGemini messages in
      if length convertedHistory > 8 then
        (let lastMessages = slice_last 6 convertedHistory in
         if length lastMessages > 0 \<and> role_gemini (lastMessages ! 0) = GeminiModel
         then drop 1 lastMessages
         else lastMessages)
      else convertedHistory)"

section \<open>The chat service and the services it calls\<close>

text \<open>
  Every error of the source is a JavaScript \<open>Error\<close> carrying a message. A promise
  that rejects is the left injection of a sum, one that resolves the right one.
\<close>

datatype js_error = Error jsstring

text \<open>The error \<open>sendMessage\<close> throws when there is no current user.\<close>

definition NotAuthenticated :: js_error where
  "NotAuthenticated = Error (js ''User not authenticated'')"

text \<open>The part of Firebase's \<open>User\<close> that the chat service reads.\<close>

record FirebaseUser =
  uid :: jsstring

text \<open>
  What an observer of the service can see, in order: the values the two
  \<open>BehaviorSubject\<close>s emit, and the calls that leave the service.
\<close>

datatype event =
    MessagesEmit "ChatMessage list"
  | RespondingEmit bool
  | FirestoreSave ChatMessage
  | MockSave ChatMessage
  | OpenAISend jsstring "MessageOpenAI list"

text \<open>
  The state: the three fields of \<open>ChatService\<close> (each subject by its current value),
  \<open>auth.currentUser\<close>, the documents of the Firestore collection \<open>messages\<close>, and the
  events so far.
\<close>

record World =
  subjectMessages :: "ChatMessage list"
  loadingHistory :: bool
  assistantResponding :: bool
  currentUser :: "FirebaseUser option"
  documents :: "ChatMessage list"
  trace :: "event list"

text \<open>
  What the program cannot decide, as parameters of one call of \<open>sendMessage\<close>:
  \<^item> \<open>addDoc\<close>: whether Firestore accepts a document, and the id it gives it;
  \<^item> \<open>generate\<close>: how \<open>firstValueFrom(openaiService.sendMessage(message, history))\<close>
    settles: the observable of \<open>OpenAIService.sendMessage\<close> either emits the text of the
    reply, or fails with the \<open>Error\<close> its \<open>catchError\<close> builds (for HTTP status 429 the
    message \<open>You have exceeded the request limit. Please try again later.\<close>);
  \<^item> \<open>clock\<close>: the value of the \<open>k\<close>-th \<open>new Date()\<close> of the call;
  \<^item> \<open>snapshots\<close>: the message lists that the subscription of \<open>initializeChat\<close>
    receives while the call is suspended at its \<open>k\<close>-th \<open>await\<close> (none when there is no
    subscription or Firestore is silent).
\<close>

record Env =
  addDoc :: "ChatMessage \<Rightarrow> js_error + jsstring"
  generate :: "jsstring \<Rightarrow> MessageOpenAI list \<Rightarrow> js_error + jsstring"
  clock :: "nat \<Rightarrow> int"
  snapshots :: "nat \<Rightarrow> ChatMessage list list"

text \<open>\<open>subjectMessages.next(ms)\<close> and \<open>assistantResponding.next(b)\<close>.\<close>

definition emitMessages :: "ChatMessage list \<Rightarrow> World \<Rightarrow> World" where
  "emitMessages ms w = w\<lparr>subjectMessages := ms, trace := trace w @ [MessagesEmit ms]\<rparr>"

definition emitResponding :: "bool \<Rightarrow> World \<Rightarrow> World" where
  "emitResponding b w = w\<lparr>assistantResponding := b, trace := trace w @ [RespondingEmit b]\<rparr>"

text \<open>
  The \<open>next\<close> handler that \<open>initializeChat\<close> subscribes to \<open>getUserMessages\<close>. (Its
  \<open>error\<close> handler does the same with the empty list.)
\<close>

definition subscription_next :: "ChatMessage list \<Rightarrow> World \<Rightarrow> World" where
  "subscription_next messages w = (emitMessages messages w)\<lparr>loadingHistory := False\<rparr>"

text \<open>
  The \<open>k\<close>-th \<open>await\<close> of \<open>sendMessage\<close>, as far as the subscription goes: the handler
  runs once for each snapshot. Other calls of \<open>sendMessage\<close> that run at an \<open>await\<close> are
  the matter of the section on calls that overlap.
\<close>

definition suspend :: "Env \<Rightarrow> nat \<Rightarrow> World \<Rightarrow> World" where
  "suspend env k w = foldl (\<lambda>w' messages. subscription_next messages w') w (snapshots env k)"

text \<open>\<open>AuthService.getCurrentUser\<close>.\<close>

definition getCurrentUser :: "World \<Rightarrow> FirebaseUser option" where
  "getCurrentUser w = currentUser w"

text \<open>
  \<open>FirestoreService.saveMessage\<close>. An empty string is falsy; \<open>message.type\<close> is one of
  two non-empty strings, so the third check never throws. The \<open>catch\<close> logs and rethrows.
\<close>

definition saveMessage :: "Env \<Rightarrow> ChatMessage \<Rightarrow> World \<Rightarrow> (js_error + unit) \<times> World" where
  "saveMessage env message w =
     (let w1 = w\<lparr>trace := trace w @ [FirestoreSave message]\<rparr> in
      if userId message = [] then (Inl (Error (js ''userId is required'')), w1)
      else if content message = [] then (Inl (Error (js ''content is required'')), w1)
      else
        (let messageToSave =
               \<lparr>id_msg = None, userId = userId message, content = content message,
                sentAt = sentAt message, type = type message,
                status = Some (case status message of None \<Rightarrow> Sent | Some st \<Rightarrow> st)\<rparr>
         in case addDoc env messageToSave of
              Inl e \<Rightarrow> (Inl e, w1)
            | Inr docId \<Rightarrow>
                (Inr (), w1\<lparr>documents := documents w1 @ [messageToSave\<lparr>id_msg := Some docId\<rparr>]\<rparr>)))"

text \<open>\<open>firestoreServiceMock.saveMessage\<close> of \<open>services/chat.ts\<close>: it resolves, whatever the message.\<close>

definition mock_saveMessage :: "ChatMessage \<Rightarrow> World \<Rightarrow> (js_error + unit) \<times> World" where
  "mock_saveMessage message w = (Inr (), w\<lparr>trace := trace w @ [MockSave message]\<rparr>)"

text \<open>
  The three object literals of \<open>sendMessage\<close>: the user's message (lines 98 to 104,
  the first \<open>new Date()\<close> of the call), the reply (lines 158 to 164) and the error
  message (lines 195 to 202). Only one of the last two is built in a call, so either
  holds the second \<open>new Date()\<close>.
\<close>

definition userMessage :: "Env \<Rightarrow> FirebaseUser \<Rightarrow> jsstring \<Rightarrow> ChatMessage" where
  "userMessage env user messageContent =
     \<lparr>id_msg = None, userId = uid user, content = trim messageContent,
      sentAt = clock env 0, type = User, status = Some Sending\<rparr>"

definition assistantMessage :: "Env \<Rightarrow> FirebaseUser \<Rightarrow> jsstring \<Rightarrow> ChatMessage" where
  "assistantMessage env user assistantResponse =
     \<lparr>id_msg = None, userId = uid user, content = assistantResponse,
      sentAt = clock env 1, type = Assistant, status = Some Sent\<rparr>"

definition apology :: jsstring where
  "apology = js ''Sorry, there was a problem processing your message. Please try again.''"

definition errorMessage :: "Env \<Rightarrow> FirebaseUser \<Rightarrow> ChatMessage" where
  "errorMessage env user =
     \<lparr>id_msg = None, userId = uid user, content = apology,
      sentAt = clock env 1, type = Assistant, status = Some ErrorStatus\<rparr>"

text \<open>
  \<open>ChatService.sendMessage\<close>, lines 106 to 126 of \<open>services/chat.ts\<close>: the \<open>try\<close> block
  up to the point where the history is read. The result of saving the user message is
  dropped, as the inner \<open>catch\<close> does.
\<close>

definition sendMessage_show :: "Env \<Rightarrow> ChatMessage \<Rightarrow> World \<Rightarrow> World" where
  "sendMessage_show env message w =
     (let userMessages = subjectMessages w;
          newMessages = userMessages @ [message];
          w1 = emitMessages newMessages w;
          w2 = suspend env 0 (snd (saveMessage env message w1))
      in emitResponding True w2)"

text \<open>The rest of the \<open>try\<close> block, lines 129 to 190.\<close>

definition sendMessage_reply ::
  "Env \<Rightarrow> FirebaseUser \<Rightarrow> jsstring \<Rightarrow> World \<Rightarrow> (js_error + unit) \<times> World" where
  "sendMessage_reply env user messageContent w =
     (let currentMessages = subjectMessages w;
          openaiHistory = convertHistoryToOpenAI (slice_last 6 currentMessages);
          w1 = suspend env 1 (w\<lparr>trace := trace w @ [OpenAISend messageContent openaiHistory]\<rparr>)
      in case generate env messageContent openaiHistory of
           Inl e \<Rightarrow> (Inl e, w1)
         | Inr assistantResponse \<Rightarrow>
             (let reply = assistantMessage env user assistantResponse;
                  updatedMessages = subjectMessages w1;
                  newMessages2 = updatedMessages @ [reply];
                  w2 = emitMessages newMessages2 w1;
                  w3 = suspend env 2 (snd (saveMessage env reply w2))
              in (Inr (), w3)))"

text \<open>The \<open>catch\<close> block, lines 191 to 214: it ends by throwing the error it caught.\<close>

definition sendMessage_catch ::
  "Env \<Rightarrow> FirebaseUser \<Rightarrow> js_error \<Rightarrow> World \<Rightarrow> (js_error + unit) \<times> World" where
  "sendMessage_catch env user error w =
     (let failure = errorMessage env user;
          (saved, w1) = mock_saveMessage failure w;
          w2 = suspend env 3 w1;
          w3 = (case saved of
                  Inr _ \<Rightarrow> w2
                | Inl saveErrorError \<Rightarrow> emitMessages (subjectMessages w2 @ [failure]) w2)
      in (Inl error, w3))"

text \<open>
  \<open>ChatService.sendMessage\<close>: the two checks, the user message, then
  \<open>try\<close>/\<open>catch\<close>/\<open>finally\<close>.
\<close>

definition sendMessage :: "Env \<Rightarrow> jsstring \<Rightarrow> World \<Rightarrow> (js_error + unit) \<times> World" where
  "sendMessage env messageContent w =
     (case getCurrentUser w of
        None \<Rightarrow> (Inl NotAuthenticated, w)
      | Some user \<Rightarrow>
          if trim messageContent = [] then (Inr (), w)
          else
            (let message = userMessage env user messageContent;
                 (tried, w1) = sendMessage_reply env user messageContent
                                 (sendMessage_show env message w);
                 (settled, w2) = (case tried of
                                    Inr u \<Rightarrow> (Inr u, w1)
                                  | Inl error \<Rightarrow> sendMessage_catch env user error w1)
             in (settled, emitResponding False w2)))"

text \<open>\<open>ChatService.getMessages\<close> and \<open>ChatService.clearChat\<close>.\<close>

definition getMessages :: "World \<Rightarrow> ChatMessage list" where
  "getMessages w = subjectMessages w"

definition clearChat :: "World \<Rightarrow> World" where
  "clearChat w = emitMessages [] w"

section \<open>Calls that overlap\<close>

text \<open>
  \<open>sendMessage\<close> has no guard against a second call while one is suspended, and neither
  has the component that calls it. Between two \<open>await\<close>s a call runs without
  interruption; at an \<open>await\<close> any other call may run up to its own next \<open>await\<close>. A
  stage names the \<open>await\<close> a call is suspended at and holds the local constants it needs
  afterwards; \<open>resume\<close> runs the call from there to its next \<open>await\<close>, or to its end.
  The pieces are those of \<open>sendMessage\<close> above, cut at lines 117, 147, 184 and 206.
\<close>

datatype stage =
    NotStarted
  | SavingUserMessage FirebaseUser
  | Generating FirebaseUser "MessageOpenAI list"
  | SavingReply
  | SavingErrorMessage FirebaseUser js_error "js_error + unit"
  | Settled "js_error + unit"

fun resume :: "Env \<Rightarrow> jsstring \<Rightarrow> stage \<Rightarrow> World \<Rightarrow> stage \<times> World" where
  "resume env messageContent NotStarted w =
     (case getCurrentUser w of
        None \<Rightarrow> (Settled (Inl NotAuthenticated), w)
      | Some user \<Rightarrow>
          if trim messageContent = [] then (Settled (Inr ()), w)
          else
            (let message = userMessage env user messageContent;
                 userMessages = subjectMessages w;
                 newMessages = userMessages @ [message];
                 w1 = emitMessages newMessages w
             in (SavingUserMessage user, snd (saveMessage env message w1))))"
| "resume env messageContent (SavingUserMessage user) w =
     (let w1 = emitResponding True (suspend env 0 w);
          currentMessages = subjectMessages w1;
          openaiHistory = convertHistoryToOpenAI (slice_last 6 currentMessages)
      in (Generating user openaiHistory,
          w1\<lparr>trace := trace w1 @ [OpenAISend messageContent openaiHistory]\<rparr>))"
| "resume env messageContent (Generating user openaiHistory) w =
     (let w1 = suspend env 1 w
      in case generate env messageContent openaiHistory of
           Inl error \<Rightarrow>
             (let (saved, w2) = mock_saveMessage (errorMessage env user) w1
              in (SavingErrorMessage user error saved, w2))
         | Inr assistantResponse \<Rightarrow>
             (let reply = assistantMessage env user assistantResponse;
                  updatedMessages = subjectMessages w1;
                  newMessages2 = updatedMessages @ [reply];
                  w2 = emitMessages newMessages2 w1
              in (SavingReply, snd (saveMessage env reply w2))))"
| "resume env messageContent SavingReply w =
     (Settled (Inr ()), emitResponding False (suspend env 2 w))"
| "resume env messageContent (SavingErrorMessage user error saved) w =
     (let w1 = suspend env 3 w;
          w2 = (case saved of
                  Inr _ \<Rightarrow> w1
                | Inl saveErrorError \<Rightarrow>
                    emitMessages (subjectMessages w1 @ [errorMessage env user]) w1)
      in (Settled (Inl error), emitResponding False w2))"
| "resume env messageContent (Settled outcome) w = (Settled outcome, w)"

text \<open>Whether the promise of a call has settled.\<close>

fun is_settled :: "stage \<Rightarrow> bool" where
  "is_settled (Settled outcome) = True"
| "is_settled st = False"

text \<open>
  Calls in flight, and a schedule: the index of the call that runs next, one entry for
  each resumption. A call that runs alone is resumed four times in a row.
\<close>

type_synonym call = "Env \<times> jsstring \<times> stage"

fun interleave :: "nat list \<Rightarrow> call list \<Rightarrow> World \<Rightarrow> call list \<times> World" where
  "interleave [] calls w = (calls, w)"
| "interleave (i # rest) calls w =
     (if i < length calls then
        (case calls ! i of
           (env, messageContent, st) \<Rightarrow>
             (case resume env messageContent st w of
                (st', w') \<Rightarrow> interleave rest (calls[i := (env, messageContent, st')]) w'))
      else interleave rest calls w)"

section \<open>Observations and sample runs\<close>

text \<open>The events between two states, and what a subscriber of each kind reads in them.\<close>

definition new_events :: "World \<Rightarrow> World \<Rightarrow> event list" where
  "new_events w w' = drop (length (trace w)) (trace w')"

fun responding_emits :: "event list \<Rightarrow> bool list" where
  "responding_emits [] = []"
| "responding_emits (RespondingEmit b # es) = b # responding_emits es"
| "responding_emits (e # es) = responding_emits es"

fun generation_calls :: "event list \<Rightarrow> (jsstring \<times> MessageOpenAI list) list" where
  "generation_calls [] = []"
| "generation_calls (OpenAISend m h # es) = (m, h) # generation_calls es"
| "generation_calls (e # es) = generation_calls es"

fun storage_calls :: "event list \<Rightarrow> ChatMessage list" where
  "storage_calls [] = []"
| "storage_calls (FirestoreSave m # es) = m # storage_calls es"
| "storage_calls (e # es) = storage_calls es"

text \<open>
  A subscriber of \<open>assistantResponding$\<close> first receives the current value, then every
  value emitted.
\<close>

definition responding_seen :: "World \<Rightarrow> World \<Rightarrow> bool list" where
  "responding_seen w w' = assistantResponding w # responding_emits (new_events w w')"

text \<open>
  The service as constructed, and the states that calls made one after another reach:
  each call of \<open>sendMessage\<close> settles before the next one starts.
\<close>

definition initial :: "FirebaseUser option \<Rightarrow> World" where
  "initial u =
     \<lparr>subjectMessages = [], loadingHistory = False, assistantResponding = False,
      currentUser = u, documents = [], trace = []\<rparr>"

inductive reachable :: "World \<Rightarrow> bool" where
  start: "reachable (initial u)"
| send: "reachable w \<Longrightarrow> reachable (snd (sendMessage env messageContent w))"
| clear: "reachable w \<Longrightarrow> reachable (clearChat w)"
| sign: "reachable w \<Longrightarrow> reachable (w\<lparr>currentUser := u\<rparr>)"
| snapshot: "reachable w \<Longrightarrow> reachable (subscription_next messages w)"

text \<open>Sample inputs: a user, two states of a fresh service, two environments, two texts.\<close>

definition alice :: FirebaseUser where
  "alice = \<lparr>uid = js ''u1''\<rparr>"

definition signed_out :: World where
  "signed_out = initial None"

definition signed_in :: World where
  "signed_in = initial (Some alice)"

definition quiet :: Env where
  "quiet =
     \<lparr>addDoc = (\<lambda>m. Inr (js ''doc'')), generate = (\<lambda>m h. Inr (js ''Hola'')),
      clock = (\<lambda>k. 1000 + int k), snapshots = (\<lambda>k. [])\<rparr>"

definition rate_limit :: js_error where
  "rate_limit = Error (js ''You have exceeded the request limit. Please try again later.'')"

definition rate_limited :: Env where
  "rate_limited = quiet\<lparr>generate := (\<lambda>m h. Inl rate_limit)\<rparr>"

definition blank :: jsstring where
  "blank = js ''   ''"

definition hello :: jsstring where
  "hello = js ''hello''"

text \<open>Two calls with the same text, not yet started.\<close>

definition two_sends :: "call list" where
  "two_sends = [(quiet, hello, NotStarted), (quiet, hello, NotStarted)]"

text \<open>Sample logs, given by the types of their messages.\<close>

definition said :: "message_type \<Rightarrow> ChatMessage" where
  "said t =
     \<lparr>id_msg = None, userId = js ''u1'', content = js ''x'', sentAt = 0, type = t,
      status = Some Sent\<rparr>"

definition one_exchange :: "ChatMessage list" where
  "one_exchange = map said [User, Assistant]"

definition nine_alternating :: "ChatMessage list" where
  "nine_alternating =
     map said [User, Assistant, User, Assistant, User, Assistant, User, Assistant, User]"

definition two_replies_in_a_row :: "ChatMessage list" where
  "two_replies_in_a_row =
     map said [User, User, User, Assistant, Assistant, User, Assistant, User, Assistant]"

definition three_exchanges :: World where
  "three_exchanges =
     signed_in\<lparr>subjectMessages :=
       map said [User, Assistant, User, Assistant, User, Assistant]\<rparr>"

section \<open>Lemmas on the parts of the model\<close>

lemma slice_last_length: "length (slice_last n xs) \<le> n"
  by (simp add: slice_last_def)

lemma convertHistoryToOpenAI_short:
  "length messages \<le> 8 \<Longrightarrow> convertHistoryToOpenAI messages = map toOpenAI messages"
  by (simp add: convertHistoryToOpenAI_def)

lemma convertHistoryToGemini_short:
  "length messages \<le> 8 \<Longrightarrow> convertHistoryToGemini messages = map toGemini messages"
  by (simp add: convertHistoryToGemini_def)

lemma slice_last_long: "n \<le> length xs \<Longrightarrow> length (slice_last n xs) = n"
  by (simp add: slice_last_def)

text \<open>
  A log of more than 8 messages is cut to its last six, less the first of them when
  that is a reply. The result starts with a question when the first or the second of
  the six is one.
\<close>

lemma convertHistoryToOpenAI_long:
  assumes "length messages > 8"
  shows "convertHistoryToOpenAI messages =
     map toOpenAI
       (if type (slice_last 6 messages ! 0) = User then slice_last 6 messages
        else drop 1 (slice_last 6 messages))"
proof -
  have six: "length (slice_last 6 messages) = 6"
    using assms by (simp add: slice_last_long)
  have "slice_last 6 (map toOpenAI messages) = map toOpenAI (slice_last 6 messages)"
    by (simp add: slice_last_def drop_map)
  then show ?thesis
    using assms six by (auto simp add: convertHistoryToOpenAI_def toOpenAI_def drop_map Let_def)
qed

lemma convertHistoryToGemini_long:
  assumes "length messages > 8"
  shows "convertHistoryToGemini messages =
     map toGemini
       (if type (slice_last 6 messages ! 0) = User then slice_last 6 messages
        else drop 1 (slice_last 6 messages))"
proof -
  have six: "length (slice_last 6 messages) = 6"
    using assms by (simp add: slice_last_long)
  have "slice_last 6 (map toGemini messages) = map toGemini (slice_last 6 messages)"
    by (simp add: slice_last_def drop_map)
  then show ?thesis
    using assms six by (auto simp add: convertHistoryToGemini_def toGemini_def drop_map Let_def)
qed

lemma long_log_starts_with_user:
  assumes "length messages > 8"
    and "type (slice_last 6 messages ! 0) = User \<or> type (slice_last 6 messages ! 1) = User"
  shows "convertHistoryToOpenAI messages \<noteq> []
    \<and> role_openai (hd (convertHistoryToOpenAI messages)) = RoleUser
    \<and> convertHistoryToGemini messages \<noteq> []
    \<and> role_gemini (hd (convertHistoryToGemini messages)) = GeminiUser"
proof -
  have six: "length (slice_last 6 messages) = 6"
    using assms(1) by (simp add: slice_last_long)
  then obtain a b c d e f where l: "slice_last 6 messages = [a, b, c, d, e, f]"
    by (auto simp add: length_Suc_conv eval_nat_numeral)
  show ?thesis
    using assms by (auto simp add: convertHistoryToOpenAI_long convertHistoryToGemini_long l
        toOpenAI_def toGemini_def)
qed

lemma new_events_append: "trace w' = trace w @ evs \<Longrightarrow> new_events w w' = evs"
  by (simp add: new_events_def)

lemma responding_emits_append:
  "responding_emits (xs @ ys) = responding_emits xs @ responding_emits ys"
  by (induction xs rule: responding_emits.induct) simp_all

lemma generation_calls_append:
  "generation_calls (xs @ ys) = generation_calls xs @ generation_calls ys"
  by (induction xs rule: generation_calls.induct) simp_all

lemma responding_emits_snapshots: "responding_emits (map MessagesEmit mss) = []"
  by (induction mss) simp_all

lemma generation_calls_snapshots: "generation_calls (map MessagesEmit mss) = []"
  by (induction mss) simp_all

text \<open>Snapshots replace the list and add to the trace; nothing else moves.\<close>

lemma suspend_fold:
  "foldl (\<lambda>w' messages. subscription_next messages w') w mss =
     w\<lparr>subjectMessages := (if mss = [] then subjectMessages w else last mss),
       loadingHistory := (if mss = [] then loadingHistory w else False),
       trace := trace w @ map MessagesEmit mss\<rparr>"
  by (induction mss arbitrary: w) (simp_all add: subscription_next_def emitMessages_def)

lemma suspend_eq:
  "suspend env k w =
     w\<lparr>subjectMessages :=
         (if snapshots env k = [] then subjectMessages w else last (snapshots env k)),
       loadingHistory := (if snapshots env k = [] then loadingHistory w else False),
       trace := trace w @ map MessagesEmit (snapshots env k)\<rparr>"
  by (simp add: suspend_def suspend_fold)

text \<open>Saving changes the documents at most, and is one event.\<close>

lemma saveMessage_eq:
  "snd (saveMessage env m w) =
     w\<lparr>documents := documents (snd (saveMessage env m w)),
       trace := trace w @ [FirestoreSave m]\<rparr>"
  by (simp add: saveMessage_def Let_def split: sum.splits)

lemma trim_empty_iff: "trim s = [] \<longleftrightarrow> list_all isWhiteSpace s"
proof
  assume "trim s = []"
  then have "\<forall>c \<in> set (dropWhile isWhiteSpace s). isWhiteSpace c"
    by (simp add: trim_def)
  then have "dropWhile isWhiteSpace s = []"
    using hd_dropWhile [of isWhiteSpace s] by (cases "dropWhile isWhiteSpace s") auto
  then show "list_all isWhiteSpace s"
    by (simp add: list_all_iff)
next
  assume "list_all isWhiteSpace s"
  then show "trim s = []"
    by (auto simp add: trim_def list_all_iff dest: set_dropWhileD)
qed

text \<open>The first part of the \<open>try\<close> block: its events, and the list it leaves.\<close>

lemma trace_show:
  "trace (sendMessage_show env um w) =
     trace w @ MessagesEmit (subjectMessages w @ [um]) # FirestoreSave um #
       map MessagesEmit (snapshots env 0) @ [RespondingEmit True]"
  unfolding sendMessage_show_def Let_def
  by (subst saveMessage_eq) (simp add: suspend_eq emitMessages_def emitResponding_def)

lemma messages_show:
  "subjectMessages (sendMessage_show env um w) =
     (if snapshots env 0 = [] then subjectMessages w @ [um] else last (snapshots env 0))"
  unfolding sendMessage_show_def Let_def
  by (subst saveMessage_eq) (simp add: suspend_eq emitMessages_def emitResponding_def)

text \<open>
  The second part starts with the call of the generation service; after it, and in the
  \<open>catch\<close> block, the flag is not emitted and the service is not called again.
\<close>

lemma trace_reply:
  "\<exists>evs. trace (snd (sendMessage_reply env user messageContent w)) =
      trace w @ OpenAISend messageContent
        (convertHistoryToOpenAI (slice_last 6 (subjectMessages w))) # evs
    \<and> responding_emits evs = [] \<and> generation_calls evs = []"
  unfolding sendMessage_reply_def Let_def
  apply (cases "generate env messageContent
      (convertHistoryToOpenAI (slice_last 6 (subjectMessages w)))")
   apply (simp add: suspend_eq responding_emits_snapshots generation_calls_snapshots)
  apply simp
  apply (subst saveMessage_eq)
  apply (simp add: suspend_eq emitMessages_def responding_emits_append generation_calls_append
      responding_emits_snapshots generation_calls_snapshots)
  done

lemma trace_catch:
  "\<exists>evs. trace (snd (sendMessage_catch env user e w)) = trace w @ evs
    \<and> responding_emits evs = [] \<and> generation_calls evs = []"
  by (simp add: sendMessage_catch_def mock_saveMessage_def suspend_eq Let_def
      responding_emits_snapshots generation_calls_snapshots)

lemma fst_catch: "fst (sendMessage_catch env user e w) = Inl e"
  by (simp add: sendMessage_catch_def mock_saveMessage_def Let_def)

text \<open>The three ways through \<open>sendMessage\<close>.\<close>

lemma sendMessage_anonymous:
  "currentUser w = None \<Longrightarrow> sendMessage env messageContent w = (Inl NotAuthenticated, w)"
  by (simp add: sendMessage_def getCurrentUser_def)

lemma sendMessage_blank:
  "currentUser w = Some user \<Longrightarrow> trim messageContent = [] \<Longrightarrow>
     sendMessage env messageContent w = (Inr (), w)"
  by (simp add: sendMessage_def getCurrentUser_def)

lemma sendMessage_valid:
  assumes "currentUser w = Some user" and "trim messageContent \<noteq> []"
  shows "sendMessage env messageContent w =
    (let tried = sendMessage_reply env user messageContent
                   (sendMessage_show env (userMessage env user messageContent) w)
     in (fst tried,
         emitResponding False
           (case fst tried of
              Inr u \<Rightarrow> snd tried
            | Inl error \<Rightarrow> snd (sendMessage_catch env user error (snd tried)))))"
  using assms
  by (auto simp add: sendMessage_def getCurrentUser_def Let_def
      split: prod.splits sum.splits dest: arg_cong [where f = fst] simp: fst_catch)

lemma sendMessage_events:
  fixes env :: Env and user messageContent w
  defines "w1 \<equiv> sendMessage_show env (userMessage env user messageContent) w"
  assumes "currentUser w = Some user" and "trim messageContent \<noteq> []"
  shows "\<exists>evs. trace (snd (sendMessage env messageContent w)) =
           trace w1 @ OpenAISend messageContent
             (convertHistoryToOpenAI (slice_last 6 (subjectMessages w1)))
             # evs @ [RespondingEmit False]
         \<and> responding_emits evs = [] \<and> generation_calls evs = []"
proof -
  let ?tried = "sendMessage_reply env user messageContent w1"
  let ?call = "OpenAISend messageContent
    (convertHistoryToOpenAI (slice_last 6 (subjectMessages w1)))"
  obtain evs where evs: "trace (snd ?tried) = trace w1 @ ?call # evs"
      "responding_emits evs = []" "generation_calls evs = []"
    using trace_reply by blast
  show ?thesis
  proof (cases "fst ?tried")
    case (Inr u)
    then have "trace (snd (sendMessage env messageContent w)) =
        trace (snd ?tried) @ [RespondingEmit False]"
      using assms(2,3) by (simp add: sendMessage_valid w1_def Let_def emitResponding_def)
    with evs show ?thesis by simp
  next
    case (Inl e)
    obtain evs' where evs': "trace (snd (sendMessage_catch env user e (snd ?tried))) =
        trace (snd ?tried) @ evs'" "responding_emits evs' = []" "generation_calls evs' = []"
      using trace_catch by blast
    from Inl have "trace (snd (sendMessage env messageContent w)) =
        trace (snd (sendMessage_catch env user e (snd ?tried))) @ [RespondingEmit False]"
      using assms(2,3) by (simp add: sendMessage_valid w1_def Let_def emitResponding_def)
    with evs evs' have "trace (snd (sendMessage env messageContent w)) =
           trace w1 @ ?call # (evs @ evs') @ [RespondingEmit False]
         \<and> responding_emits (evs @ evs') = [] \<and> generation_calls (evs @ evs') = []"
      by (simp add: responding_emits_append generation_calls_append)
    then show ?thesis by blast
  qed
qed

text \<open>The events of a call that passes both checks, from first to last.\<close>

lemma sendMessage_new_events:
  fixes env :: Env and user messageContent w
  defines "um \<equiv> userMessage env user messageContent"
  defines "w1 \<equiv> sendMessage_show env um w"
  assumes "currentUser w = Some user" and "trim messageContent \<noteq> []"
  shows "\<exists>evs. new_events w (snd (sendMessage env messageContent w)) =
           MessagesEmit (subjectMessages w @ [um]) # FirestoreSave um #
           map MessagesEmit (snapshots env 0) @ RespondingEmit True #
           OpenAISend messageContent
             (convertHistoryToOpenAI (slice_last 6 (subjectMessages w1))) #
           evs @ [RespondingEmit False]
         \<and> responding_emits evs = [] \<and> generation_calls evs = []"
proof -
  obtain evs where evs: "trace (snd (sendMessage env messageContent w)) =
           trace w1 @ OpenAISend messageContent
             (convertHistoryToOpenAI (slice_last 6 (subjectMessages w1)))
             # evs @ [RespondingEmit False]"
      "responding_emits evs = []" "generation_calls evs = []"
    using sendMessage_events [OF assms(3,4), of env] unfolding w1_def um_def by blast
  have "trace (snd (sendMessage env messageContent w)) = trace w @
           (MessagesEmit (subjectMessages w @ [um]) # FirestoreSave um #
           map MessagesEmit (snapshots env 0) @ RespondingEmit True #
           OpenAISend messageContent
             (convertHistoryToOpenAI (slice_last 6 (subjectMessages w1))) #
           evs @ [RespondingEmit False])"
    using evs(1) by (simp add: w1_def trace_show)
  then have "new_events w (snd (sendMessage env messageContent w)) =
           MessagesEmit (subjectMessages w @ [um]) # FirestoreSave um #
           map MessagesEmit (snapshots env 0) @ RespondingEmit True #
           OpenAISend messageContent
             (convertHistoryToOpenAI (slice_last 6 (subjectMessages w1))) #
           evs @ [RespondingEmit False]"
    by (rule new_events_append)
  with evs(2,3) show ?thesis by blast
qed

text \<open>A call resumed four times in a row is \<open>sendMessage\<close> as defined above.\<close>

lemma interleave_alone:
  "interleave [0, 0, 0, 0] [(env, messageContent, NotStarted)] w =
     ([(env, messageContent, Settled (fst (sendMessage env messageContent w)))],
      snd (sendMessage env messageContent w))"
proof (cases "currentUser w")
  case None
  then show ?thesis
    by (simp add: sendMessage_anonymous getCurrentUser_def)
next
  case (Some user)
  show ?thesis
  proof (cases "trim messageContent = []")
    case True
    with Some show ?thesis
      by (simp add: sendMessage_blank getCurrentUser_def)
  next
    case False
    show ?thesis
    proof (cases "generate env messageContent (convertHistoryToOpenAI (slice_last 6
        (subjectMessages (sendMessage_show env (userMessage env user messageContent) w))))")
      case (Inl e)
      with Some False show ?thesis
        by (simp add: sendMessage_valid getCurrentUser_def Let_def sendMessage_show_def
            sendMessage_reply_def sendMessage_catch_def mock_saveMessage_def
            emitResponding_def)
    next
      case (Inr r)
      with Some False show ?thesis
        by (simp add: sendMessage_valid getCurrentUser_def Let_def sendMessage_show_def
            sendMessage_reply_def emitResponding_def)
    qed
  qed
qed

text \<open>
  The flag is down after every call that ran alone and found it down, so in every
  reachable state.
\<close>

lemma sendMessage_settles_idle:
  assumes "currentUser w = Some user" and "trim messageContent \<noteq> []"
  shows "assistantResponding (snd (sendMessage env messageContent w)) = False"
  using assms by (simp add: sendMessage_valid Let_def emitResponding_def)

lemma sendMessage_keeps_idle:
  assumes idle: "\<not> assistantResponding w"
  shows "\<not> assistantResponding (snd (sendMessage env messageContent w))"
proof (cases "currentUser w")
  case None
  with idle show ?thesis by (simp add: sendMessage_anonymous)
next
  case (Some user)
  show ?thesis
  proof (cases "trim messageContent = []")
    case True
    with Some idle show ?thesis by (simp add: sendMessage_blank)
  next
    case False
    with Some show ?thesis by (simp add: sendMessage_settles_idle)
  qed
qed

lemma reachable_idle: "reachable w \<Longrightarrow> \<not> assistantResponding w"
  by (induction rule: reachable.induct)
    (simp_all add: initial_def sendMessage_keeps_idle clearChat_def emitMessages_def
      subscription_next_def)

text \<open>
  When the generation service rejects and no snapshot arrives, the call ends with the
  list it had after showing the user's message: the \<open>catch\<close> block adds nothing.
\<close>

lemma rejected_send_final_list:
  assumes "currentUser w = Some user" and "trim messageContent \<noteq> []"
    and silent: "\<And>k. snapshots env k = []"
    and rejects: "\<And>h. generate env messageContent h = Inl e"
  shows "fst (sendMessage env messageContent w) = Inl e
    \<and> subjectMessages (snd (sendMessage env messageContent w)) =
        subjectMessages w @ [userMessage env user messageContent]"
  using assms(1,2)
  apply (simp add: sendMessage_valid Let_def)
  apply (simp add: sendMessage_reply_def Let_def rejects suspend_eq silent emitResponding_def
      sendMessage_catch_def mock_saveMessage_def messages_show)
  done

text \<open>The definitions that a run on the sample inputs unfolds.\<close>

lemmas sample_defs =
  signed_in_def signed_out_def initial_def alice_def hello_def blank_def quiet_def
  rate_limited_def rate_limit_def said_def one_exchange_def nine_alternating_def
  two_replies_in_a_row_def three_exchanges_def two_sends_def

lemmas run_defs =
  sendMessage_def getCurrentUser_def sendMessage_show_def sendMessage_reply_def
  sendMessage_catch_def mock_saveMessage_def saveMessage_def suspend_def emitMessages_def
  emitResponding_def userMessage_def assistantMessage_def errorMessage_def
  convertHistoryToOpenAI_def slice_last_def toOpenAI_def
  trim_def isWhiteSpace_def js_def Let_def new_events_def getMessages_def

section \<open>The claims\<close>

subsection \<open>History conversion\<close>

text \<open>
  Claim C2, with the threshold the code has. A log of at most 8 messages is converted
  whole by both converters: the result has the length of the log, and its \<open>i\<close>-th entry
  has the content of the \<open>i\<close>-th message and the role that stands for its type.
\<close>

theorem short_log_converted_whole:
  "length log \<le> 8 \<Longrightarrow>
     convertHistoryToOpenAI log = map toOpenAI log
   \<and> convertHistoryToGemini log = map toGemini log
   \<and> length (convertHistoryToOpenAI log) = length log
   \<and> length (convertHistoryToGemini log) = length log
   \<and> (\<forall>i<length log.
         content_openai (convertHistoryToOpenAI log ! i) = content (log ! i)
       \<and> role_openai (convertHistoryToOpenAI log ! i) =
           (case type (log ! i) of User \<Rightarrow> RoleUser | Assistant \<Rightarrow> RoleAssistant)
       \<and> parts (convertHistoryToGemini log ! i) = [\<lparr>text_part = content (log ! i)\<rparr>]
       \<and> role_gemini (convertHistoryToGemini log ! i) =
           (case type (log ! i) of User \<Rightarrow> GeminiUser | Assistant \<Rightarrow> GeminiModel))"
  by (simp add: convertHistoryToOpenAI_short convertHistoryToGemini_short toOpenAI_def
      toGemini_def split: message_type.splits)

text \<open>The theorem of C2 at a log of one question and its answer.\<close>

theorem short_log_converted_whole_witness:
  "length one_exchange \<le> 8
   \<and> convertHistoryToOpenAI one_exchange =
       [\<lparr>role_openai = RoleUser, content_openai = js ''x''\<rparr>,
        \<lparr>role_openai = RoleAssistant, content_openai = js ''x''\<rparr>]
   \<and> convertHistoryToGemini one_exchange =
       [\<lparr>role_gemini = GeminiUser, parts = [\<lparr>text_part = js ''x''\<rparr>]\<rparr>,
        \<lparr>role_gemini = GeminiModel, parts = [\<lparr>text_part = js ''x''\<rparr>]\<rparr>]"
proof -
  have short: "length one_exchange \<le> 8"
    by (simp add: one_exchange_def)
  from short_log_converted_whole [OF short] show ?thesis
    by (simp add: one_exchange_def said_def toOpenAI_def toGemini_def)
qed

text \<open>
  Claim C2 as it is written fails: nine messages are at most 12, and both converters
  return fewer than nine entries (the last six without the leading reply).
\<close>

theorem nine_messages_are_trimmed:
  "length nine_alternating \<le> 12
   \<and> length (convertHistoryToOpenAI nine_alternating) \<noteq> length nine_alternating
   \<and> length (convertHistoryToGemini nine_alternating) \<noteq> length nine_alternating"
  by (simp add: nine_alternating_def convertHistoryToOpenAI_def convertHistoryToGemini_def
      slice_last_def said_def toOpenAI_def toGemini_def)

text \<open>
  Claim C3 at a log of nine messages whose last six start with two replies: each
  converter drops one reply only, and its result starts with the other.
\<close>

theorem two_replies_in_a_row_start_with_reply:
  "length two_replies_in_a_row > 8
   \<and> convertHistoryToOpenAI two_replies_in_a_row =
       map toOpenAI (map said [Assistant, User, Assistant, User, Assistant])
   \<and> convertHistoryToOpenAI two_replies_in_a_row \<noteq> []
   \<and> role_openai (hd (convertHistoryToOpenAI two_replies_in_a_row)) = RoleAssistant
   \<and> convertHistoryToGemini two_replies_in_a_row \<noteq> []
   \<and> role_gemini (hd (convertHistoryToGemini two_replies_in_a_row)) = GeminiModel"
  by (simp add: two_replies_in_a_row_def convertHistoryToOpenAI_def convertHistoryToGemini_def
      slice_last_def said_def toOpenAI_def toGemini_def)

text \<open>
  Claim C4. A call of \<open>sendMessage\<close> that passes both checks calls the generation service
  once, with the text as given and the history that the converter makes of the last six
  messages of the list read after the user's message is shown. That history has one
  entry for each of those messages, in their order, with the message's content and the
  role that stands for its type. At most six messages are never more than 8, so the
  converter's trimming branch is not taken. When no snapshot came in between, the list
  read is the old one with the user's message. The history may start with a reply.
\<close>

theorem sendMessage_submits_last_six:
  fixes env :: Env and user messageContent w
  defines "current \<equiv>
    subjectMessages (sendMessage_show env (userMessage env user messageContent) w)"
  defines "history \<equiv> convertHistoryToOpenAI (slice_last 6 current)"
  assumes "currentUser w = Some user" and "trim messageContent \<noteq> []"
  shows "generation_calls (new_events w (snd (sendMessage env messageContent w))) =
           [(messageContent, history)]
       \<and> length history = length (slice_last 6 current)
       \<and> (\<forall>i<length (slice_last 6 current).
             content_openai (history ! i) = content (slice_last 6 current ! i)
           \<and> role_openai (history ! i) =
               (case type (slice_last 6 current ! i) of
                  User \<Rightarrow> RoleUser | Assistant \<Rightarrow> RoleAssistant))
       \<and> length (slice_last 6 current) \<le> 6
       \<and> \<not> length (map toOpenAI (slice_last 6 current)) > 8
       \<and> (snapshots env 0 = [] \<longrightarrow>
            current = subjectMessages w @ [userMessage env user messageContent])
       \<and> (\<exists>env0 user0 text0 w0 history0.
            currentUser w0 = Some user0 \<and> trim text0 \<noteq> []
            \<and> generation_calls (new_events w0 (snd (sendMessage env0 text0 w0))) =
                [(text0, history0)]
            \<and> history0 \<noteq> []
            \<and> role_openai (hd history0) = RoleAssistant
            \<and> role_openai (last history0) = RoleUser)"
proof -
  have len: "length (slice_last 6 current) \<le> 6"
    by (rule slice_last_length)
  then have "length (slice_last 6 current) \<le> 8"
    by simp
  then have conv: "history = map toOpenAI (slice_last 6 current)"
    unfolding history_def by (rule convertHistoryToOpenAI_short)
  obtain evs where evs: "new_events w (snd (sendMessage env messageContent w)) =
           MessagesEmit (subjectMessages w @ [userMessage env user messageContent]) #
           FirestoreSave (userMessage env user messageContent) #
           map MessagesEmit (snapshots env 0) @ RespondingEmit True #
           OpenAISend messageContent history #
           evs @ [RespondingEmit False]"
      "generation_calls evs = []"
    using sendMessage_new_events [OF assms(3,4), of env] unfolding current_def history_def
    by blast
  have calls: "generation_calls (new_events w (snd (sendMessage env messageContent w))) =
           [(messageContent, history)]"
    by (simp add: evs generation_calls_append generation_calls_snapshots)
  have entries: "\<forall>i<length (slice_last 6 current).
             content_openai (history ! i) = content (slice_last 6 current ! i)
           \<and> role_openai (history ! i) =
               (case type (slice_last 6 current ! i) of
                  User \<Rightarrow> RoleUser | Assistant \<Rightarrow> RoleAssistant)"
    by (simp add: conv toOpenAI_def split: message_type.splits)
  have sample: "currentUser three_exchanges = Some alice \<and> trim hello \<noteq> []
      \<and> generation_calls
           (new_events three_exchanges (snd (sendMessage quiet hello three_exchanges))) =
          [(hello, map toOpenAI (map said [Assistant, User, Assistant, User, Assistant]
                                  @ [userMessage quiet alice hello]))]"
    by (simp add: run_defs sample_defs)
  have ends: "map toOpenAI (map said [Assistant, User, Assistant, User, Assistant]
                                  @ [userMessage quiet alice hello]) \<noteq> []
      \<and> role_openai (hd (map toOpenAI (map said [Assistant, User, Assistant, User, Assistant]
                                  @ [userMessage quiet alice hello]))) = RoleAssistant
      \<and> role_openai (last (map toOpenAI (map said [Assistant, User, Assistant, User, Assistant]
                                  @ [userMessage quiet alice hello]))) = RoleUser"
    by (simp add: toOpenAI_def said_def userMessage_def)
  from sample ends have may: "\<exists>env0 user0 text0 w0 history0.
            currentUser w0 = Some user0 \<and> trim text0 \<noteq> []
            \<and> generation_calls (new_events w0 (snd (sendMessage env0 text0 w0))) =
                [(text0, history0)]
            \<and> history0 \<noteq> []
            \<and> role_openai (hd history0) = RoleAssistant
            \<and> role_openai (last history0) = RoleUser"
    by blast
  show ?thesis
    using calls len entries may by (simp add: conv current_def messages_show)
qed

text \<open>The theorem of C4 at a fourth message after three exchanges.\<close>

theorem sendMessage_submits_last_six_witness:
  "currentUser three_exchanges = Some alice \<and> trim hello \<noteq> []
   \<and> generation_calls
        (new_events three_exchanges (snd (sendMessage quiet hello three_exchanges))) =
       [(hello,
         [\<lparr>role_openai = RoleAssistant, content_openai = js ''x''\<rparr>,
          \<lparr>role_openai = RoleUser, content_openai = js ''x''\<rparr>,
          \<lparr>role_openai = RoleAssistant, content_openai = js ''x''\<rparr>,
          \<lparr>role_openai = RoleUser, content_openai = js ''x''\<rparr>,
          \<lparr>role_openai = RoleAssistant, content_openai = js ''x''\<rparr>,
          \<lparr>role_openai = RoleUser, content_openai = js ''hello''\<rparr>])]"
proof -
  have user: "currentUser three_exchanges = Some alice"
    by (simp add: sample_defs)
  have nonblank: "trim hello \<noteq> []"
    by (simp add: hello_def trim_def isWhiteSpace_def js_def)
  have current: "slice_last 6
       (subjectMessages
         (sendMessage_show quiet (userMessage quiet alice hello) three_exchanges)) =
     [said Assistant, said User, said Assistant, said User, said Assistant,
      userMessage quiet alice hello]"
    by (simp add: messages_show slice_last_def three_exchanges_def quiet_def)
  have history: "convertHistoryToOpenAI
       [said Assistant, said User, said Assistant, said User, said Assistant,
        userMessage quiet alice hello] =
         [\<lparr>role_openai = RoleAssistant, content_openai = js ''x''\<rparr>,
          \<lparr>role_openai = RoleUser, content_openai = js ''x''\<rparr>,
          \<lparr>role_openai = RoleAssistant, content_openai = js ''x''\<rparr>,
          \<lparr>role_openai = RoleUser, content_openai = js ''x''\<rparr>,
          \<lparr>role_openai = RoleAssistant, content_openai = js ''x''\<rparr>,
          \<lparr>role_openai = RoleUser, content_openai = js ''hello''\<rparr>]"
    by (simp add: convertHistoryToOpenAI_def toOpenAI_def said_def userMessage_def hello_def
        trim_def isWhiteSpace_def js_def)
  have "generation_calls
        (new_events three_exchanges (snd (sendMessage quiet hello three_exchanges))) =
      [(hello, convertHistoryToOpenAI (slice_last 6 (subjectMessages
         (sendMessage_show quiet (userMessage quiet alice hello) three_exchanges))))]"
    using sendMessage_submits_last_six [OF user nonblank, of quiet] by blast
  then show ?thesis
    using user nonblank by (simp add: current history)
qed

subsection \<open>The checks of \<open>sendMessage\<close>\<close>

text \<open>
  Claim C5. Without a current user, \<open>sendMessage\<close> rejects with the error
  \<open>User not authenticated\<close> and leaves the state as it was: the same message list, the
  same flag, and no event at all, so that nothing was emitted, no service was called and
  no \<open>await\<close> was reached.
\<close>

theorem sendMessage_without_user:
  "currentUser w = None \<Longrightarrow>
     sendMessage env messageContent w = (Inl NotAuthenticated, w)
   \<and> getMessages (snd (sendMessage env messageContent w)) = getMessages w
   \<and> assistantResponding (snd (sendMessage env messageContent w)) = assistantResponding w
   \<and> new_events w (snd (sendMessage env messageContent w)) = []"
  by (simp add: sendMessage_anonymous new_events_def)

text \<open>The theorem of C5 at a fresh service with nobody signed in.\<close>

theorem sendMessage_without_user_witness:
  "currentUser signed_out = None
   \<and> sendMessage quiet hello signed_out =
       (Inl (Error (js ''User not authenticated'')), signed_out)"
proof -
  have anonymous: "currentUser signed_out = None"
    by (simp add: signed_out_def initial_def)
  from sendMessage_without_user [OF anonymous, of quiet hello] show ?thesis
    by (simp add: anonymous NotAuthenticated_def)
qed

text \<open>
  Claim C8, for a signed-in user. A text whose trim is empty makes \<open>sendMessage\<close>
  resolve with the state as it was and no event.
\<close>

theorem blank_send_is_noop_for_user:
  "currentUser w = Some user \<Longrightarrow> trim messageContent = [] \<Longrightarrow>
     sendMessage env messageContent w = (Inr (), w)
   \<and> new_events w (snd (sendMessage env messageContent w)) = []"
  by (simp add: sendMessage_blank new_events_def)

text \<open>The theorem of C8 at three spaces sent by a signed-in user.\<close>

theorem blank_send_is_noop_for_user_witness:
  "currentUser signed_in = Some alice \<and> trim blank = []
   \<and> sendMessage quiet blank signed_in = (Inr (), signed_in)"
proof -
  have user: "currentUser signed_in = Some alice"
    by (simp add: signed_in_def initial_def)
  have empty: "trim blank = []"
    by (simp add: blank_def trim_def isWhiteSpace_def js_def)
  from blank_send_is_noop_for_user [OF user empty, of quiet] show ?thesis
    by (simp add: user empty)
qed

text \<open>
  Claim C8 as it is written fails: three spaces sent with nobody signed in do not
  resolve, they reject with the authentication error.
\<close>

theorem blank_send_rejects_without_user:
  "trim blank = []
   \<and> fst (sendMessage quiet blank signed_out) \<noteq> Inr ()
   \<and> fst (sendMessage quiet blank signed_out) = Inl NotAuthenticated"
  by (simp add: sendMessage_def getCurrentUser_def signed_out_def initial_def blank_def
      trim_def isWhiteSpace_def js_def)

text \<open>
  Claim C10. The user is checked before the text: a text whose trim is empty, sent
  without a current user, rejects with the authentication error and changes nothing;
  such a text resolves exactly when there is a current user.
\<close>

theorem sendMessage_checks_user_before_text:
  "trim messageContent = [] \<Longrightarrow>
     (currentUser w = None \<longrightarrow>
        sendMessage env messageContent w = (Inl NotAuthenticated, w))
   \<and> (fst (sendMessage env messageContent w) = Inr ()) = (currentUser w \<noteq> None)"
  by (cases "currentUser w") (simp_all add: sendMessage_def getCurrentUser_def)

text \<open>The theorem of C10 at three spaces, with nobody signed in and with a user.\<close>

theorem sendMessage_checks_user_before_text_witness:
  "trim blank = []
   \<and> sendMessage quiet blank signed_out = (Inl NotAuthenticated, signed_out)
   \<and> fst (sendMessage quiet blank signed_out) \<noteq> Inr ()
   \<and> fst (sendMessage quiet blank signed_in) = Inr ()"
proof -
  have empty: "trim blank = []"
    by (simp add: blank_def trim_def isWhiteSpace_def js_def)
  from sendMessage_checks_user_before_text [OF empty, of signed_out quiet]
    sendMessage_checks_user_before_text [OF empty, of signed_in quiet]
  show ?thesis
    by (simp add: empty signed_out_def signed_in_def initial_def)
qed

subsection \<open>A call that passes both checks\<close>



text \<open>
  Claim C7, for a call that runs alone: no other call of \<open>sendMessage\<close> runs between
  its start and its end. Such a call is \<open>sendMessage\<close> as defined above. When it passes
  both checks, whether it resolves or rejects, the flag is emitted twice: \<open>true\<close>, then
  \<open>false\<close>. The emission of \<open>false\<close> is the last event of the call and the flag is down
  when the call has settled. A subscriber who saw the flag down before the call sees
  \<open>false\<close>, \<open>true\<close>, \<open>false\<close> and nothing else.
\<close>

theorem send_alone_brackets_responding:
  fixes env :: Env and user messageContent w
  defines "w' \<equiv> snd (interleave [0, 0, 0, 0] [(env, messageContent, NotStarted)] w)"
  assumes "currentUser w = Some user" and "trim messageContent \<noteq> []"
  shows "interleave [0, 0, 0, 0] [(env, messageContent, NotStarted)] w =
           ([(env, messageContent, Settled (fst (sendMessage env messageContent w)))],
            snd (sendMessage env messageContent w))
       \<and> trace w' = trace w @ new_events w w'
       \<and> responding_emits (new_events w w') = [True, False]
       \<and> new_events w w' \<noteq> [] \<and> last (new_events w w') = RespondingEmit False
       \<and> assistantResponding w' = False
       \<and> (\<not> assistantResponding w \<longrightarrow> responding_seen w w' = [False, True, False])"
proof -
  have alone: "w' = snd (sendMessage env messageContent w)"
    unfolding w'_def by (subst interleave_alone) simp
  obtain evs where evs: "new_events w w' =
           MessagesEmit (subjectMessages w @ [userMessage env user messageContent]) #
           FirestoreSave (userMessage env user messageContent) #
           map MessagesEmit (snapshots env 0) @ RespondingEmit True #
           OpenAISend messageContent (convertHistoryToOpenAI (slice_last 6
             (subjectMessages (sendMessage_show env (userMessage env user messageContent) w)))) #
           evs @ [RespondingEmit False]"
      "responding_emits evs = []"
    using sendMessage_new_events [OF assms(2,3), of env] unfolding alone by blast
  have emits: "responding_emits (new_events w w') = [True, False]"
    by (simp add: evs responding_emits_append responding_emits_snapshots)
  have final: "new_events w w' \<noteq> [] \<and> last (new_events w w') = RespondingEmit False"
    by (simp add: evs)
  have idle: "assistantResponding w' = False"
    unfolding alone using assms(2,3) by (rule sendMessage_settles_idle)
  obtain evs' where "trace w' = trace w @ evs'"
    using sendMessage_events [OF assms(2,3), of env] unfolding alone
    by (auto simp add: trace_show)
  then have ext: "trace w' = trace w @ new_events w w'"
    by (simp add: new_events_def)
  have seen: "\<not> assistantResponding w \<longrightarrow> responding_seen w w' = [False, True, False]"
    by (simp add: responding_seen_def emits)
  show ?thesis
    using interleave_alone [of env messageContent w] ext emits final idle seen by blast
qed

text \<open>The theorem of C7 at a call that resolves and at one that rejects.\<close>

theorem send_alone_brackets_responding_witness:
  "currentUser signed_in = Some alice \<and> trim hello \<noteq> []
   \<and> \<not> assistantResponding signed_in
   \<and> map (\<lambda>c. snd (snd c)) (fst (interleave [0, 0, 0, 0] [(quiet, hello, NotStarted)] signed_in)) =
       [Settled (Inr ())]
   \<and> responding_seen signed_in
        (snd (interleave [0, 0, 0, 0] [(quiet, hello, NotStarted)] signed_in)) =
       [False, True, False]
   \<and> map (\<lambda>c. snd (snd c))
        (fst (interleave [0, 0, 0, 0] [(rate_limited, hello, NotStarted)] signed_in)) =
       [Settled (Inl rate_limit)]
   \<and> responding_seen signed_in
        (snd (interleave [0, 0, 0, 0] [(rate_limited, hello, NotStarted)] signed_in)) =
       [False, True, False]"
proof -
  have user: "currentUser signed_in = Some alice"
    by (simp add: sample_defs)
  have nonblank: "trim hello \<noteq> []"
    by (simp add: hello_def trim_def isWhiteSpace_def js_def)
  have idle: "\<not> assistantResponding signed_in"
    by (simp add: sample_defs)
  have settled: "fst (sendMessage quiet hello signed_in) = Inr ()
      \<and> fst (sendMessage rate_limited hello signed_in) = Inl rate_limit"
    by (simp add: run_defs sample_defs)
  have resolved:
    "interleave [0, 0, 0, 0] [(quiet, hello, NotStarted)] signed_in =
       ([(quiet, hello, Settled (fst (sendMessage quiet hello signed_in)))],
        snd (sendMessage quiet hello signed_in))"
    "responding_seen signed_in
       (snd (interleave [0, 0, 0, 0] [(quiet, hello, NotStarted)] signed_in)) =
     [False, True, False]"
    using send_alone_brackets_responding [OF user nonblank, of quiet] idle by blast+
  have rejected:
    "interleave [0, 0, 0, 0] [(rate_limited, hello, NotStarted)] signed_in =
       ([(rate_limited, hello, Settled (fst (sendMessage rate_limited hello signed_in)))],
        snd (sendMessage rate_limited hello signed_in))"
    "responding_seen signed_in
       (snd (interleave [0, 0, 0, 0] [(rate_limited, hello, NotStarted)] signed_in)) =
     [False, True, False]"
    using send_alone_brackets_responding [OF user nonblank, of rate_limited] idle by blast+
  show ?thesis
    using user nonblank idle resolved(2) rejected(2)
    by (simp add: resolved(1) rejected(1) settled del: interleave.simps)
qed

text \<open>
  Claim C7 as it is written fails for calls that overlap. Two calls are started one
  after the other by a signed-in user; the first settles while the second waits for its
  reply. Until then a subscriber sees \<open>false\<close>, \<open>true\<close>, \<open>true\<close>, \<open>false\<close>: the flag is
  raised twice during the first call, and it is down while the second call is still
  waiting. When both have settled the subscriber has seen \<open>false\<close> twice in a row.
\<close>

theorem overlapping_sends_raise_flag_twice:
  "currentUser signed_in = Some alice \<and> trim hello \<noteq> []
   \<and> \<not> assistantResponding signed_in
   \<and> map (\<lambda>c. is_settled (snd (snd c)))
        (fst (interleave [0, 1, 0, 1, 0, 0] two_sends signed_in)) = [True, False]
   \<and> responding_seen signed_in (snd (interleave [0, 1, 0, 1, 0, 0] two_sends signed_in)) =
       [False, True, True, False]
   \<and> responding_seen signed_in (snd (interleave [0, 1, 0, 1, 0, 0] two_sends signed_in)) \<noteq>
       [False, True, False]
   \<and> map (\<lambda>c. is_settled (snd (snd c)))
        (fst (interleave [0, 1, 0, 1, 0, 0, 1, 1] two_sends signed_in)) = [True, True]
   \<and> responding_seen signed_in
        (snd (interleave [0, 1, 0, 1, 0, 0, 1, 1] two_sends signed_in)) =
       [False, True, True, False, False]"
  by (simp add: run_defs sample_defs responding_seen_def)

text \<open>
  Claim C1 at a first message whose generation is rejected for the rate limit.
  \<open>sendMessage\<close> rejects with that error, but the error message is handed to the mock
  save only, which resolves: the list ends with the user's message and holds no message
  of status \<open>error\<close>.
\<close>

theorem rate_limited_send_shows_no_error_message:
  "fst (sendMessage rate_limited hello signed_in) = Inl rate_limit
   \<and> getMessages (snd (sendMessage rate_limited hello signed_in)) =
       [userMessage rate_limited alice hello]
   \<and> filter (\<lambda>m. status m = Some ErrorStatus)
        (getMessages (snd (sendMessage rate_limited hello signed_in))) = []
   \<and> new_events signed_in (snd (sendMessage rate_limited hello signed_in)) =
       [MessagesEmit [userMessage rate_limited alice hello],
        FirestoreSave (userMessage rate_limited alice hello),
        RespondingEmit True,
        OpenAISend hello [toOpenAI (userMessage rate_limited alice hello)],
        MockSave (errorMessage rate_limited alice),
        RespondingEmit False]"
  by (simp add: run_defs sample_defs)

subsection \<open>Clearing the chat\<close>

text \<open>
  Claim C9. In every state, so in every state that calls of \<open>sendMessage\<close> reach,
  \<open>clearChat\<close> emits the empty list, as \<open>subjectMessages.next([])\<close> does, and that is its
  only event: it calls no save. The documents, the flag, the current user and the
  loading flag stay as they were.
\<close>

theorem clearChat_resets_list_only:
  "getMessages (clearChat w) = []
   \<and> clearChat w = emitMessages [] w
   \<and> clearChat w = w\<lparr>subjectMessages := [], trace := trace w @ [MessagesEmit []]\<rparr>
   \<and> new_events w (clearChat w) = [MessagesEmit []]
   \<and> storage_calls (new_events w (clearChat w)) = []
   \<and> documents (clearChat w) = documents w
   \<and> assistantResponding (clearChat w) = assistantResponding w
   \<and> currentUser (clearChat w) = currentUser w
   \<and> loadingHistory (clearChat w) = loadingHistory w"
  by (simp add: clearChat_def emitMessages_def getMessages_def new_events_def)

end
